theory Spec2Isabelle
  imports Complex_Main "HOL-Library.Multiset"
begin

section \<open>Python values and errors\<close>

text \<open>
  Python's unbounded \<open>int\<close> is \<^typ>\<open>int\<close>. A Python \<open>float\<close> is modelled as an exact
  \<^typ>\<open>real\<close>: rounding, overflow to infinity and NaN are outside this development.
  Every exception the modelled code can raise is a value of \<open>py_error\<close>, and a function
  that may raise returns \<open>py_error + 'a\<close> with \<open>Inl\<close> for the exception.
\<close>

datatype py_error =
    ZeroDivisionError
  | IndexError
  | KeyError string
  | ValueError string
  | TypeError

definition bind_err :: "py_error + 'a \<Rightarrow> ('a \<Rightarrow> py_error + 'b) \<Rightarrow> py_error + 'b" where
  "bind_err r k = (case r of Inl e \<Rightarrow> Inl e | Inr v \<Rightarrow> k v)"

section \<open>Task 1: FizzBuzz\<close>

text \<open>
  \<^verbatim>\<open>print\<close> appends one line to standard output; the output is the list of lines printed
  so far. \<open>str_int\<close> is the decimal rendering \<^verbatim>\<open>str(num)\<close> that \<^verbatim>\<open>print(num)\<close> writes.
\<close>

definition digit_char :: "nat \<Rightarrow> char" where
  "digit_char d = ''0123456789'' ! d"

fun str_nat :: "nat \<Rightarrow> string" where
  "str_nat n = (if n < 10 then [digit_char n] else str_nat (n div 10) @ [digit_char (n mod 10)])"

declare str_nat.simps [simp del]

definition str_int :: "int \<Rightarrow> string" where
  "str_int i = (if i < 0 then CHR ''-'' # str_nat (nat (- i)) else str_nat (nat i))"







section \<open>Task 2: the valuation service\<close>

subsection \<open>Data model\<close>

text \<open>
  The loaders build dictionaries with fixed keys; each is a record here. The field names
  carry a prefix because two of the dictionaries share the key \<^verbatim>\<open>matching_id\<close>.
\<close>

record product =
  p_id :: int
  p_price :: real
  p_currency :: string
  p_quantity :: int
  p_matching_id :: int

record matching =
  m_matching_id :: int
  m_top_priced_count :: int

record valuation_result =
  r_matching_id :: int
  r_total_price :: real
  r_avg_price :: real
  r_currency :: string
  r_ignored_products_count :: int

type_synonym currency_table = "string \<rightharpoonup> real"

subsection \<open>The valuation engine\<close>

text \<open>The sort key \<^verbatim>\<open>lambda x: x['price'] * x['quantity']\<close>.\<close>

definition extended_price :: "product \<Rightarrow> real" where
  "extended_price x = p_price x * real_of_int (p_quantity x)"

text \<open>
  \<^verbatim>\<open>list.sort(key=..., reverse=True)\<close> is a stable sort: the list is reversed, sorted
  stably in ascending key order, and reversed again.
\<close>

definition sort_reverse :: "('a \<Rightarrow> real) \<Rightarrow> 'a list \<Rightarrow> 'a list" where
  "sort_reverse key xs = rev (sort_key key (rev xs))"

text \<open>The slice \<^verbatim>\<open>xs[:n]\<close>; a negative \<open>n\<close> counts from the end.\<close>

definition slice_to :: "'a list \<Rightarrow> int \<Rightarrow> 'a list" where
  "slice_to xs n = (if n < 0 then take (nat (int (length xs) + n)) xs else take (nat n) xs)"

text \<open>\<^verbatim>\<open>sum(...)\<close> adds from the left, starting at 0.\<close>

definition py_sum :: "real list \<Rightarrow> real" where
  "py_sum xs = foldl (+) 0 xs"

definition py_div :: "real \<Rightarrow> int \<Rightarrow> py_error + real" where
  "py_div x n = (if n = 0 then Inl ZeroDivisionError else Inr (x / real_of_int n))"

definition first_item :: "'a list \<Rightarrow> py_error + 'a" where
  "first_item xs = (case xs of [] \<Rightarrow> Inl IndexError | x # _ \<Rightarrow> Inr x)"

definition lookup_currency :: "currency_table \<Rightarrow> string \<Rightarrow> py_error + real" where
  "lookup_currency currencies c =
     (case currencies c of None \<Rightarrow> Inl (KeyError c) | Some ratio \<Rightarrow> Inr ratio)"

text \<open>
  Lines 114 to 119: the currency of the first product of the top set decides whether
  both prices are multiplied by the ratio; the currency that goes into the result is
  PLN on both branches.
\<close>

definition convert :: "currency_table \<Rightarrow> string \<Rightarrow> real \<Rightarrow> real \<Rightarrow> py_error + (real \<times> real \<times> string)" where
  "convert currencies currency total_price avg_price =
     (if currency \<noteq> ''PLN''
      then bind_err (lookup_currency currencies currency)
             (\<lambda>ratio. Inr (total_price * ratio, avg_price * ratio, ''PLN''))
      else Inr (total_price, avg_price, currency))"

text \<open>The body of the loop over the matchings, lines 103 to 127.\<close>

definition valuate :: "product list \<Rightarrow> currency_table \<Rightarrow> matching \<Rightarrow> py_error + valuation_result" where
  "valuate data currencies m =
     (let matching_id = m_matching_id m;
          top_priced_count = m_top_priced_count m;
          products = filter (\<lambda>product. p_matching_id product = matching_id) data;
          products = sort_reverse extended_price products;
          top_products = slice_to products top_priced_count;
          ignored_products_count = int (length products) - top_priced_count;
          total_price = py_sum (map extended_price top_products)
      in bind_err (py_div total_price top_priced_count) (\<lambda>avg_price.
         bind_err (first_item top_products) (\<lambda>first.
         bind_err (convert currencies (p_currency first) total_price avg_price)
           (\<lambda>(total_price, avg_price, currency).
              Inr \<lparr> r_matching_id = matching_id,
                    r_total_price = total_price,
                    r_avg_price = avg_price,
                    r_currency = currency,
                    r_ignored_products_count = ignored_products_count \<rparr>))))"

text \<open>
  The loop itself: \<open>valuation_results\<close> is the accumulator, a result is appended after
  each matching, and an exception leaves the loop at once.
\<close>

fun valuation_loop ::
  "product list \<Rightarrow> currency_table \<Rightarrow> matching list \<Rightarrow> valuation_result list
   \<Rightarrow> py_error + valuation_result list" where
  "valuation_loop data currencies [] valuation_results = Inr valuation_results"
| "valuation_loop data currencies (m # ms) valuation_results =
     (case valuate data currencies m of
        Inl e \<Rightarrow> Inl e
      | Inr result \<Rightarrow> valuation_loop data currencies ms (valuation_results @ [result]))"

definition calculate_valuation ::
  "product list \<Rightarrow> matching list \<Rightarrow> currency_table \<Rightarrow> py_error + valuation_result list" where
  "calculate_valuation data matchings currencies = valuation_loop data currencies matchings []"

subsection \<open>Intermediate values of the loop body\<close>

text \<open>
  The values the local variables of the loop body hold, named so that statements can
  speak about them: \<open>products\<close> after line 106 and after line 107, \<open>top_products\<close>
  after line 108, \<open>total_price\<close> after line 111.
\<close>

definition group_products :: "product list \<Rightarrow> int \<Rightarrow> product list" where
  "group_products data matching_id = filter (\<lambda>product. p_matching_id product = matching_id) data"

definition sorted_products :: "product list \<Rightarrow> int \<Rightarrow> product list" where
  "sorted_products data matching_id = sort_reverse extended_price (group_products data matching_id)"

definition top_set :: "product list \<Rightarrow> matching \<Rightarrow> product list" where
  "top_set data m = slice_to (sorted_products data (m_matching_id m)) (m_top_priced_count m)"

definition top_total :: "product list \<Rightarrow> matching \<Rightarrow> real" where
  "top_total data m = py_sum (map extended_price (top_set data m))"

text \<open>
  Lines 106 to 112 alone: the pair \<open>(total_price, avg_price)\<close> as it stands before the
  conversion of lines 114 to 119.
\<close>

definition prices_before_conversion :: "product list \<Rightarrow> matching \<Rightarrow> py_error + (real \<times> real)" where
  "prices_before_conversion data m =
     (let matching_id = m_matching_id m;
          top_priced_count = m_top_priced_count m;
          products = filter (\<lambda>product. p_matching_id product = matching_id) data;
          products = sort_reverse extended_price products;
          top_products = slice_to products top_priced_count;
          total_price = py_sum (map extended_price top_products)
      in bind_err (py_div total_price top_priced_count) (\<lambda>avg_price.
         Inr (total_price, avg_price)))"

subsection \<open>The result writer and the main script\<close>

text \<open>
  The file system is a map from paths to tables; a table is its header and its rows.
  \<^verbatim>\<open>save_results\<close> opens the path for writing, which replaces what was there.
\<close>

type_synonym file_store = "string \<rightharpoonup> (string list \<times> valuation_result list)"

definition fieldnames :: "string list" where
  "fieldnames = [''matching_id'', ''total_price'', ''avg_price'', ''currency'', ''ignored_products_count'']"

definition save_results :: "string \<Rightarrow> valuation_result list \<Rightarrow> file_store \<Rightarrow> file_store" where
  "save_results file_path results fs = fs(file_path \<mapsto> (fieldnames, results))"

text \<open>
  Lines 229 to 233 of the script: the results are computed, then saved. An exception
  of \<^verbatim>\<open>calculate_valuation\<close> ends the script before \<^verbatim>\<open>save_results\<close> is reached.
\<close>

definition main_valuation ::
  "product list \<Rightarrow> matching list \<Rightarrow> currency_table \<Rightarrow> file_store \<Rightarrow> (py_error + unit) \<times> file_store" where
  "main_valuation data matchings currencies fs =
     (case calculate_valuation data matchings currencies of
        Inl e \<Rightarrow> (Inl e, fs)
      | Inr results \<Rightarrow> (Inr (), save_results ''top_products.csv'' results fs))"

subsection \<open>The data loader\<close>









text \<open>
  Plain decimal literals, for running the loaders on concrete rows: on a string of
  digits with an optional leading minus sign, and for \<open>dec_float\<close> an optional
  fraction after a point, these agree with \<^verbatim>\<open>int\<close> and \<^verbatim>\<open>float\<close> read as exact numbers.
\<close>

definition digit_of :: "char \<Rightarrow> nat option" where
  "digit_of c = (let n = (of_char c :: nat) in if 48 \<le> n \<and> n \<le> 57 then Some (n - 48) else None)"

fun digits_val :: "string \<Rightarrow> nat \<Rightarrow> nat option" where
  "digits_val [] acc = Some acc"
| "digits_val (c # cs) acc =
     (case digit_of c of None \<Rightarrow> None | Some d \<Rightarrow> digits_val cs (10 * acc + d))"

definition dec_nat :: "string \<Rightarrow> nat option" where
  "dec_nat s = (if s = [] then None else digits_val s 0)"

definition dec_int :: "string \<Rightarrow> int option" where
  "dec_int s =
     (case s of
        [] \<Rightarrow> None
      | c # cs \<Rightarrow> if c = CHR ''-'' then map_option (\<lambda>n. - int n) (dec_nat cs)
                  else map_option int (dec_nat s))"


subsection \<open>Valid inputs and the script's own fixture\<close>



text \<open>The three tables \<^verbatim>\<open>create_input_files\<close> writes, as the loaders return them.\<close>

definition fixture_currencies :: currency_table where
  "fixture_currencies = [''GBP'' \<mapsto> 2.4, ''EU'' \<mapsto> 2.1, ''PLN'' \<mapsto> 1.0]"

definition fixture_data :: "product list" where
  "fixture_data =
    [\<lparr>p_id = 1, p_price = 1000, p_currency = ''GBP'', p_quantity = 2, p_matching_id = 3\<rparr>,
     \<lparr>p_id = 2, p_price = 1050, p_currency = ''EU'', p_quantity = 1, p_matching_id = 1\<rparr>,
     \<lparr>p_id = 3, p_price = 2000, p_currency = ''PLN'', p_quantity = 1, p_matching_id = 1\<rparr>,
     \<lparr>p_id = 4, p_price = 1750, p_currency = ''EU'', p_quantity = 2, p_matching_id = 2\<rparr>,
     \<lparr>p_id = 5, p_price = 1400, p_currency = ''EU'', p_quantity = 4, p_matching_id = 3\<rparr>,
     \<lparr>p_id = 6, p_price = 7000, p_currency = ''PLN'', p_quantity = 3, p_matching_id = 2\<rparr>,
     \<lparr>p_id = 7, p_price = 630, p_currency = ''GBP'', p_quantity = 5, p_matching_id = 3\<rparr>,
     \<lparr>p_id = 8, p_price = 4000, p_currency = ''EU'', p_quantity = 1, p_matching_id = 3\<rparr>,
     \<lparr>p_id = 9, p_price = 1400, p_currency = ''GBP'', p_quantity = 3, p_matching_id = 1\<rparr>]"







subsection \<open>The valuation engine on a store of objects\<close>

text \<open>
  Python lists and dictionaries are objects that variables refer to, so \<^verbatim>\<open>products\<close>
  of line 106 holds references to the very dictionaries \<^verbatim>\<open>data\<close> holds, and
  \<^verbatim>\<open>products.sort\<close> and \<^verbatim>\<open>valuation_results.append\<close> change a list where it
  stands. To speak about what \<^verbatim>\<open>calculate_valuation\<close> changes, the engine is written
  a second time over a store: the list of all objects, an address being an index into
  it. A new object is put at the end of the store. An action takes the store and
  returns the value or the exception together with the store as the action leaves it.
  A reference that does not lead to an object of the kind the code expects is a
  TypeError.
\<close>

type_synonym addr = nat

datatype obj =
    ProductDict product
  | MatchingDict matching
  | ResultDict valuation_result
  | CurrencyDict currency_table
  | ListObj "addr list"

type_synonym store = "obj list"

type_synonym 'a action = "store \<Rightarrow> (py_error + 'a) \<times> store"

definition ret :: "'a \<Rightarrow> 'a action" where
  "ret v s = (Inr v, s)"

definition lift :: "py_error + 'a \<Rightarrow> 'a action" where
  "lift r s = (r, s)"

definition seq :: "'a action \<Rightarrow> ('a \<Rightarrow> 'b action) \<Rightarrow> 'b action" where
  "seq f g s = (case f s of (Inl e, s') \<Rightarrow> (Inl e, s') | (Inr v, s') \<Rightarrow> g v s')"

definition new_obj :: "obj \<Rightarrow> addr action" where
  "new_obj ob s = (Inr (length s), s @ [ob])"

definition get_obj :: "addr \<Rightarrow> obj action" where
  "get_obj a s = (if a < length s then Inr (s ! a) else Inl TypeError, s)"

definition put_obj :: "addr \<Rightarrow> obj \<Rightarrow> unit action" where
  "put_obj a ob s = (if a < length s then (Inr (), s[a := ob]) else (Inl TypeError, s))"

definition get_list :: "addr \<Rightarrow> addr list action" where
  "get_list a = seq (get_obj a) (\<lambda>ob. case ob of ListObj refs \<Rightarrow> ret refs | _ \<Rightarrow> lift (Inl TypeError))"

definition get_product :: "addr \<Rightarrow> product action" where
  "get_product a = seq (get_obj a) (\<lambda>ob. case ob of ProductDict p \<Rightarrow> ret p | _ \<Rightarrow> lift (Inl TypeError))"

definition get_matching :: "addr \<Rightarrow> matching action" where
  "get_matching a = seq (get_obj a) (\<lambda>ob. case ob of MatchingDict m \<Rightarrow> ret m | _ \<Rightarrow> lift (Inl TypeError))"

definition get_currencies :: "addr \<Rightarrow> currency_table action" where
  "get_currencies a =
     seq (get_obj a) (\<lambda>ob. case ob of CurrencyDict t \<Rightarrow> ret t | _ \<Rightarrow> lift (Inl TypeError))"

text \<open>Reading the dictionaries a list of references leads to, from left to right.\<close>

fun get_products :: "addr list \<Rightarrow> product list action" where
  "get_products [] = ret []"
| "get_products (a # refs) =
     seq (get_product a) (\<lambda>p. seq (get_products refs) (\<lambda>ps. ret (p # ps)))"

text \<open>
  \<^verbatim>\<open>xs.sort(key=lambda x: x['price'] * x['quantity'], reverse=True)\<close>: the references are
  ranked by the key of the dictionary each leads to, and the list object is overwritten.
\<close>

definition list_sort :: "addr \<Rightarrow> unit action" where
  "list_sort xs =
     seq (get_list xs) (\<lambda>refs.
     seq (get_products refs) (\<lambda>dicts.
       put_obj xs (ListObj (map fst
         (sort_reverse (\<lambda>(ref, product). extended_price product) (zip refs dicts))))))"

text \<open>\<^verbatim>\<open>xs[:n]\<close> makes a new list object.\<close>

definition list_slice :: "addr \<Rightarrow> int \<Rightarrow> addr action" where
  "list_slice xs n = seq (get_list xs) (\<lambda>refs. new_obj (ListObj (slice_to refs n)))"

text \<open>\<^verbatim>\<open>xs.append(x)\<close> overwrites the list object.\<close>

definition list_append :: "addr \<Rightarrow> addr \<Rightarrow> unit action" where
  "list_append xs x = seq (get_list xs) (\<lambda>refs. put_obj xs (ListObj (refs @ [x])))"

text \<open>Lines 114 to 119; the table is read only on the branch that needs it.\<close>

definition convert_store ::
  "addr \<Rightarrow> string \<Rightarrow> real \<Rightarrow> real \<Rightarrow> (real \<times> real \<times> string) action" where
  "convert_store currencies currency total_price avg_price =
     (if currency \<noteq> ''PLN''
      then seq (get_currencies currencies) (\<lambda>table.
           seq (lift (lookup_currency table currency)) (\<lambda>ratio.
             ret (total_price * ratio, avg_price * ratio, ''PLN'')))
      else ret (total_price, avg_price, currency))"

text \<open>
  The loop body, lines 103 to 128. Its arguments are the references held by the
  variables \<^verbatim>\<open>data\<close>, \<^verbatim>\<open>currencies\<close>, \<^verbatim>\<open>valuation_results\<close> and \<^verbatim>\<open>matching\<close>.
\<close>

definition valuate_store :: "addr \<Rightarrow> addr \<Rightarrow> addr \<Rightarrow> addr \<Rightarrow> unit action" where
  "valuate_store data currencies valuation_results matching =
     seq (get_matching matching) (\<lambda>m.
     let matching_id = m_matching_id m;
         top_priced_count = m_top_priced_count m
     in
     seq (get_list data) (\<lambda>refs.
     seq (get_products refs) (\<lambda>dicts.
     seq (new_obj (ListObj (map fst
            (filter (\<lambda>(ref, product). p_matching_id product = matching_id) (zip refs dicts)))))
       (\<lambda>products.
     seq (list_sort products) (\<lambda>_.
     seq (list_slice products top_priced_count) (\<lambda>top_products.
     seq (get_list products) (\<lambda>sorted_refs.
     let ignored_products_count = int (length sorted_refs) - top_priced_count in
     seq (get_list top_products) (\<lambda>top_refs.
     seq (get_products top_refs) (\<lambda>top_dicts.
     let total_price = py_sum (map extended_price top_dicts) in
     seq (lift (py_div total_price top_priced_count)) (\<lambda>avg_price.
     seq (lift (first_item top_refs)) (\<lambda>first_ref.
     seq (get_product first_ref) (\<lambda>first.
     seq (convert_store currencies (p_currency first) total_price avg_price)
       (\<lambda>(total_price, avg_price, currency).
     seq (new_obj (ResultDict
            \<lparr> r_matching_id = matching_id,
              r_total_price = total_price,
              r_avg_price = avg_price,
              r_currency = currency,
              r_ignored_products_count = ignored_products_count \<rparr>))
       (\<lambda>result.
     list_append valuation_results result))))))))))))))"

fun valuation_loop_store :: "addr \<Rightarrow> addr \<Rightarrow> addr \<Rightarrow> addr list \<Rightarrow> unit action" where
  "valuation_loop_store data currencies valuation_results [] = ret ()"
| "valuation_loop_store data currencies valuation_results (matching # rest) =
     seq (valuate_store data currencies valuation_results matching)
       (\<lambda>_. valuation_loop_store data currencies valuation_results rest)"

text \<open>
  \<^verbatim>\<open>calculate_valuation\<close> itself: its arguments are the references to the product
  list, the matching list and the currency dictionary, its value the reference to the
  new list of results.
\<close>

definition calculate_valuation_store :: "addr \<Rightarrow> addr \<Rightarrow> addr \<Rightarrow> addr action" where
  "calculate_valuation_store data matchings currencies =
     seq (new_obj (ListObj [])) (\<lambda>valuation_results.
     seq (get_list matchings) (\<lambda>matching_refs.
     seq (valuation_loop_store data currencies valuation_results matching_refs) (\<lambda>_.
       ret valuation_results)))"

text \<open>
  An action keeps the first \<open>n\<close> objects when, started in a store of at least \<open>n\<close>
  objects, it leaves these as they were and removes none; \<open>Q\<close> is what is known of the
  value it returns.
\<close>

definition keeps :: "nat \<Rightarrow> 'a action \<Rightarrow> ('a \<Rightarrow> bool) \<Rightarrow> bool" where
  "keeps n f Q \<longleftrightarrow>
     (\<forall>s. n \<le> length s \<longrightarrow>
        (case f s of (r, s') \<Rightarrow>
           take n s' = take n s \<and> length s \<le> length s' \<and> (case r of Inl e \<Rightarrow> True | Inr v \<Rightarrow> Q v)))"

text \<open>A store with two products of group 1, one matching and the currency table.\<close>

definition small_store :: store where
  "small_store =
    [ProductDict \<lparr>p_id = 1, p_price = 10, p_currency = ''PLN'', p_quantity = 1, p_matching_id = 1\<rparr>,
     ProductDict \<lparr>p_id = 2, p_price = 30, p_currency = ''EU'', p_quantity = 2, p_matching_id = 1\<rparr>,
     ListObj [0, 1],
     MatchingDict \<lparr>m_matching_id = 1, m_top_priced_count = 1\<rparr>,
     ListObj [3],
     CurrencyDict [''EU'' \<mapsto> 2]]"

text \<open>
  How a store holds a list of values behind a list of references: each reference leads
  to an object of the given kind with the value at the same position.
\<close>

definition holds :: "('a \<Rightarrow> obj) \<Rightarrow> store \<Rightarrow> addr list \<Rightarrow> 'a list \<Rightarrow> bool" where
  "holds C s refs xs = list_all2 (\<lambda>a x. a < length s \<and> s ! a = C x) refs xs"

section \<open>FizzBuzz: what is printed\<close>





text \<open>
  The line printed for a number that is neither a multiple of 3 nor of 5 is its decimal
  rendering: read back as a decimal literal, it is the number.
\<close>

lemma digit_of_digit_char: "d < 10 \<Longrightarrow> digit_of (digit_char d) = Some d"
proof -
  assume "d < 10"
  then have "d \<in> {0, 1, 2, 3, 4, 5, 6, 7, 8, 9}"
    by auto
  then show ?thesis
    by (auto simp: digit_of_def digit_char_def)
qed

lemma digits_val_append:
  "digits_val (xs @ ys) acc = (case digits_val xs acc of None \<Rightarrow> None | Some v \<Rightarrow> digits_val ys v)"
  by (induction xs arbitrary: acc) (simp_all split: option.splits)

lemma digits_val_str_nat: "digits_val (str_nat n) 0 = Some n"
proof (induction n rule: str_nat.induct)
  case (1 n)
  show ?case
  proof (cases "n < 10")
    case True
    then show ?thesis
      by (subst str_nat.simps) (simp add: digit_of_digit_char)
  next
    case False
    with "1.IH" show ?thesis
      by (subst str_nat.simps) (simp add: digits_val_append digit_of_digit_char)
  qed
qed

lemma str_nat_not_empty: "str_nat n \<noteq> []"
  by (subst str_nat.simps) simp

lemma str_nat_no_minus: "hd (str_nat n) \<noteq> CHR ''-''"
proof (induction n rule: str_nat.induct)
  case (1 n)
  show ?case
  proof (cases "n < 10")
    case True
    then have "n \<in> {0, 1, 2, 3, 4, 5, 6, 7, 8, 9}"
      by auto
    then show ?thesis
      by (subst str_nat.simps) (auto simp: digit_char_def)
  next
    case False
    with "1.IH" str_nat_not_empty [of "n div 10"] show ?thesis
      by (subst str_nat.simps) simp
  qed
qed

lemma dec_int_str_int: "dec_int (str_int i) = Some i"
proof (cases "i < 0")
  case True
  then show ?thesis
    by (simp add: str_int_def dec_int_def dec_nat_def str_nat_not_empty digits_val_str_nat)
next
  case False
  obtain c cs where s: "str_nat (nat i) = c # cs"
    using str_nat_not_empty [of "nat i"] by (cases "str_nat (nat i)") auto
  with str_nat_no_minus [of "nat i"] have "c \<noteq> CHR ''-''"
    by simp
  with False s digits_val_str_nat [of "nat i"] show ?thesis
    by (simp add: str_int_def dec_int_def dec_nat_def)
qed

section \<open>The ranking of a group\<close>


lemma sort_reverse_length: "length (sort_reverse key xs) = length xs"
  by (simp add: sort_reverse_def)




lemmas eval_defs = valuate_def Let_def bind_err_def py_div_def first_item_def convert_def
  lookup_currency_def py_sum_def slice_to_def sort_reverse_def extended_price_def
  group_products_def sorted_products_def top_set_def top_total_def
  prices_before_conversion_def


section \<open>The loop body, case by case\<close>


lemma valuate_cases:
  "valuate data currencies m =
     (if m_top_priced_count m = 0 then Inl ZeroDivisionError
      else if top_set data m = [] then Inl IndexError
      else if p_currency (hd (top_set data m)) = ''PLN''
        then Inr \<lparr> r_matching_id = m_matching_id m,
                   r_total_price = top_total data m,
                   r_avg_price = top_total data m / real_of_int (m_top_priced_count m),
                   r_currency = ''PLN'',
                   r_ignored_products_count =
                     int (length (group_products data (m_matching_id m))) - m_top_priced_count m \<rparr>
      else case currencies (p_currency (hd (top_set data m))) of
             None \<Rightarrow> Inl (KeyError (p_currency (hd (top_set data m))))
           | Some ratio \<Rightarrow>
               Inr \<lparr> r_matching_id = m_matching_id m,
                     r_total_price = top_total data m * ratio,
                     r_avg_price = top_total data m / real_of_int (m_top_priced_count m) * ratio,
                     r_currency = ''PLN'',
                     r_ignored_products_count =
                       int (length (group_products data (m_matching_id m))) - m_top_priced_count m \<rparr>)"
  by (cases "top_set data m")
     (auto simp: valuate_def Let_def bind_err_def py_div_def first_item_def convert_def
        lookup_currency_def top_set_def top_total_def sorted_products_def group_products_def
        sort_reverse_length split: option.splits list.splits)

lemma prices_before_conversion_cases:
  "prices_before_conversion data m =
     (if m_top_priced_count m = 0 then Inl ZeroDivisionError
      else Inr (top_total data m, top_total data m / real_of_int (m_top_priced_count m)))"
  by (simp add: prices_before_conversion_def Let_def bind_err_def py_div_def top_total_def
        top_set_def sorted_products_def group_products_def)



lemma fixture_run_1:
  "valuate fixture_data fixture_currencies \<lparr>m_matching_id = 1, m_top_priced_count = 2\<rparr>
   = Inr \<lparr>r_matching_id = 1, r_total_price = 14880, r_avg_price = 7440, r_currency = ''PLN'',
          r_ignored_products_count = 1\<rparr>"
  by (simp add: fixture_data_def fixture_currencies_def eval_defs)

lemma fixture_run_2:
  "valuate fixture_data fixture_currencies \<lparr>m_matching_id = 2, m_top_priced_count = 2\<rparr>
   = Inr \<lparr>r_matching_id = 2, r_total_price = 24500, r_avg_price = 12250, r_currency = ''PLN'',
          r_ignored_products_count = 0\<rparr>"
  by (simp add: fixture_data_def fixture_currencies_def eval_defs)


lemma fixture_before_1:
  "prices_before_conversion fixture_data \<lparr>m_matching_id = 1, m_top_priced_count = 2\<rparr>
   = Inr (6200, 3100)"
  by (simp add: fixture_data_def eval_defs)

lemma fixture_before_2:
  "prices_before_conversion fixture_data \<lparr>m_matching_id = 2, m_top_priced_count = 2\<rparr>
   = Inr (24500, 12250)"
  by (simp add: fixture_data_def eval_defs)

lemma fixture_top_1:
  "map p_id (top_set fixture_data \<lparr>m_matching_id = 1, m_top_priced_count = 2\<rparr>) = [9, 3]"
  "p_currency (hd (top_set fixture_data \<lparr>m_matching_id = 1, m_top_priced_count = 2\<rparr>)) = ''GBP''"
  by (simp_all add: fixture_data_def eval_defs)

lemma fixture_top_2:
  "map p_id (top_set fixture_data \<lparr>m_matching_id = 2, m_top_priced_count = 2\<rparr>) = [6, 4]"
  "p_currency (hd (top_set fixture_data \<lparr>m_matching_id = 2, m_top_priced_count = 2\<rparr>)) = ''PLN''"
  by (simp_all add: fixture_data_def eval_defs)

section \<open>Currency conversion\<close>

text \<open>
  Claim C2. For every matching group whose computation succeeds, the total and the
  average that stood before the conversion are both multiplied by the table's ratio
  exactly when the currency of the first product of the top set is not PLN, and are
  left as they stood when it is PLN; the currency of the result is PLN either way.
\<close>

theorem conversion_iff_foreign:
  assumes "valuate data currencies m = Inr r"
  shows "r_currency r = ''PLN'' \<and> top_set data m \<noteq> [] \<and>
    (\<exists>total_price avg_price.
       prices_before_conversion data m = Inr (total_price, avg_price) \<and>
       (p_currency (hd (top_set data m)) \<noteq> ''PLN'' \<longrightarrow>
          (\<exists>ratio. currencies (p_currency (hd (top_set data m))) = Some ratio
             \<and> r_total_price r = total_price * ratio \<and> r_avg_price r = avg_price * ratio)) \<and>
       (p_currency (hd (top_set data m)) = ''PLN'' \<longrightarrow>
          r_total_price r = total_price \<and> r_avg_price r = avg_price))"
  using assms
  by (auto simp: valuate_cases prices_before_conversion_cases split: if_splits option.splits)

theorem conversion_iff_foreign_witness:
  "valuate fixture_data fixture_currencies \<lparr>m_matching_id = 1, m_top_priced_count = 2\<rparr>
     = Inr \<lparr>r_matching_id = 1, r_total_price = 14880, r_avg_price = 7440, r_currency = ''PLN'',
            r_ignored_products_count = 1\<rparr>
   \<and> prices_before_conversion fixture_data \<lparr>m_matching_id = 1, m_top_priced_count = 2\<rparr>
     = Inr (6200, 3100)
   \<and> p_currency (hd (top_set fixture_data \<lparr>m_matching_id = 1, m_top_priced_count = 2\<rparr>)) = ''GBP''
   \<and> fixture_currencies ''GBP'' = Some 2.4
   \<and> valuate fixture_data fixture_currencies \<lparr>m_matching_id = 2, m_top_priced_count = 2\<rparr>
     = Inr \<lparr>r_matching_id = 2, r_total_price = 24500, r_avg_price = 12250, r_currency = ''PLN'',
            r_ignored_products_count = 0\<rparr>
   \<and> prices_before_conversion fixture_data \<lparr>m_matching_id = 2, m_top_priced_count = 2\<rparr>
     = Inr (24500, 12250)
   \<and> p_currency (hd (top_set fixture_data \<lparr>m_matching_id = 2, m_top_priced_count = 2\<rparr>)) = ''PLN''"
proof -
  have "fixture_currencies ''GBP'' = Some 2.4"
    by (simp add: fixture_currencies_def)
  with conversion_iff_foreign [OF fixture_run_1] conversion_iff_foreign [OF fixture_run_2]
    fixture_run_1 fixture_run_2 fixture_before_1 fixture_before_2 fixture_top_1(2) fixture_top_2(2)
  show ?thesis
    by simp
qed

section \<open>Average and total\<close>



section \<open>The ignored products\<close>

text \<open>
  Claim C3, as amended. For every matching group whose computation succeeds,
  \<open>ignored_products_count\<close> is the number of products with the group's \<open>matching_id\<close>
  minus \<open>top_priced_count\<close>; it is non-negative exactly when \<open>top_priced_count\<close> is at
  most that number, and it is 0 when the two are equal.
\<close>

theorem ignored_count_formula:
  assumes "valuate data currencies m = Inr r"
  shows "r_ignored_products_count r
           = int (length (filter (\<lambda>product. p_matching_id product = m_matching_id m) data))
             - m_top_priced_count m
       \<and> (0 \<le> r_ignored_products_count r \<longleftrightarrow>
            m_top_priced_count m
              \<le> int (length (filter (\<lambda>product. p_matching_id product = m_matching_id m) data)))
       \<and> (m_top_priced_count m
              = int (length (filter (\<lambda>product. p_matching_id product = m_matching_id m) data))
            \<longrightarrow> r_ignored_products_count r = 0)"
  using assms
  by (auto simp: valuate_cases group_products_def split: if_splits option.splits)

theorem ignored_count_formula_witness:
  "valuate fixture_data fixture_currencies \<lparr>m_matching_id = 2, m_top_priced_count = 2\<rparr>
     = Inr \<lparr>r_matching_id = 2, r_total_price = 24500, r_avg_price = 12250, r_currency = ''PLN'',
            r_ignored_products_count = 0\<rparr>
   \<and> int (length (filter (\<lambda>product. p_matching_id product = 2) fixture_data)) = 2"
proof -
  have "int (length (filter (\<lambda>product. p_matching_id product = 2) fixture_data)) = 2"
    by (simp add: fixture_data_def)
  with ignored_count_formula [OF fixture_run_2] fixture_run_2 show ?thesis
    by simp
qed

text \<open>
  A group of one product with \<open>top_priced_count = 2\<close>: the slice holds the one
  product, the computation succeeds, and the count of ignored products is \<open>-1\<close>.
\<close>

theorem ignored_count_negative_counterexample:
  "valuate [\<lparr>p_id = 1, p_price = 10, p_currency = ''PLN'', p_quantity = 1, p_matching_id = 1\<rparr>]
     Map.empty \<lparr>m_matching_id = 1, m_top_priced_count = 2\<rparr>
   = Inr \<lparr>r_matching_id = 1, r_total_price = 10, r_avg_price = 5, r_currency = ''PLN'',
          r_ignored_products_count = - 1\<rparr>"
  by (simp add: eval_defs)

section \<open>The loop over the matchings\<close>

lemma valuation_loop_Inr:
  "valuation_loop data currencies ms acc = Inr results \<longleftrightarrow>
     (\<exists>rs. results = acc @ rs \<and> list_all2 (\<lambda>m r. valuate data currencies m = Inr r) ms rs)"
proof (induction ms arbitrary: acc)
  case Nil
  then show ?case by auto
next
  case (Cons m ms)
  show ?case
  proof (cases "valuate data currencies m")
    case (Inl e)
    then show ?thesis
      by (auto simp: list_all2_Cons1)
  next
    case (Inr r)
    then show ?thesis
      using Cons.IH [of "acc @ [r]"] by (auto simp: list_all2_Cons1)
  qed
qed

lemma valuation_loop_Inl:
  "valuation_loop data currencies ms acc = Inl e \<longleftrightarrow>
     (\<exists>pre m post. ms = pre @ m # post
        \<and> (\<forall>x \<in> set pre. \<exists>r. valuate data currencies x = Inr r)
        \<and> valuate data currencies m = Inl e)"
proof (induction ms arbitrary: acc)
  case Nil
  then show ?case by simp
next
  case (Cons m ms)
  show ?case
  proof (cases "valuate data currencies m")
    case (Inl e')
    show ?thesis
    proof
      assume "valuation_loop data currencies (m # ms) acc = Inl e"
      with Inl have "e' = e" by simp
      with Inl have "m # ms = [] @ m # ms \<and> (\<forall>x \<in> set []. \<exists>r. valuate data currencies x = Inr r)
          \<and> valuate data currencies m = Inl e"
        by simp
      then show "\<exists>pre m' post. m # ms = pre @ m' # post
          \<and> (\<forall>x \<in> set pre. \<exists>r. valuate data currencies x = Inr r)
          \<and> valuate data currencies m' = Inl e"
        by blast
    next
      assume "\<exists>pre m' post. m # ms = pre @ m' # post
          \<and> (\<forall>x \<in> set pre. \<exists>r. valuate data currencies x = Inr r)
          \<and> valuate data currencies m' = Inl e"
      then obtain pre m' post where split: "m # ms = pre @ m' # post"
        and ok: "\<forall>x \<in> set pre. \<exists>r. valuate data currencies x = Inr r"
        and bad: "valuate data currencies m' = Inl e"
        by blast
      have "pre = []"
      proof (cases pre)
        case Nil
        then show ?thesis .
      next
        case (Cons p ps)
        with split have "p = m" by simp
        with Cons ok Inl show ?thesis by auto
      qed
      with split bad Inl show "valuation_loop data currencies (m # ms) acc = Inl e"
        by simp
    qed
  next
    case (Inr r)
    show ?thesis
    proof
      assume "valuation_loop data currencies (m # ms) acc = Inl e"
      with Inr have "valuation_loop data currencies ms (acc @ [r]) = Inl e" by simp
      then obtain pre m' post where "ms = pre @ m' # post"
        and "\<forall>x \<in> set pre. \<exists>r. valuate data currencies x = Inr r"
        and "valuate data currencies m' = Inl e"
        using Cons.IH [of "acc @ [r]"] by blast
      with Inr have "m # ms = (m # pre) @ m' # post
          \<and> (\<forall>x \<in> set (m # pre). \<exists>r. valuate data currencies x = Inr r)
          \<and> valuate data currencies m' = Inl e"
        by simp
      then show "\<exists>pre m' post. m # ms = pre @ m' # post
          \<and> (\<forall>x \<in> set pre. \<exists>r. valuate data currencies x = Inr r)
          \<and> valuate data currencies m' = Inl e"
        by blast
    next
      assume "\<exists>pre m' post. m # ms = pre @ m' # post
          \<and> (\<forall>x \<in> set pre. \<exists>r. valuate data currencies x = Inr r)
          \<and> valuate data currencies m' = Inl e"
      then obtain pre m' post where split: "m # ms = pre @ m' # post"
        and ok: "\<forall>x \<in> set pre. \<exists>r. valuate data currencies x = Inr r"
        and bad: "valuate data currencies m' = Inl e"
        by blast
      from split bad Inr obtain pre' where pre: "pre = m # pre'" and ms: "ms = pre' @ m' # post"
        by (cases pre) auto
      from pre ok have "\<forall>x \<in> set pre'. \<exists>r. valuate data currencies x = Inr r" by simp
      with ms bad have "valuation_loop data currencies ms (acc @ [r]) = Inl e"
        using Cons.IH [of "acc @ [r]"] by blast
      with Inr show "valuation_loop data currencies (m # ms) acc = Inl e" by simp
    qed
  qed
qed

lemma valuation_loop_fails:
  assumes "m \<in> set ms" "valuate data currencies m = Inl e"
  shows "\<exists>e'. valuation_loop data currencies ms acc = Inl e'"
proof (cases "valuation_loop data currencies ms acc")
  case (Inl e')
  then show ?thesis by simp
next
  case (Inr results)
  then obtain rs where "list_all2 (\<lambda>m r. valuate data currencies m = Inr r) ms rs"
    by (auto simp: valuation_loop_Inr)
  with assms(1) obtain r where "valuate data currencies m = Inr r"
    by (auto simp: list_all2_conv_all_nth in_set_conv_nth)
  with assms(2) show ?thesis by simp
qed






section \<open>Failing groups\<close>



section \<open>No partial output\<close>

text \<open>
  Claim C8. If the loop body fails for some matching of the list, \<open>calculate_valuation\<close>
  fails and the script ends without calling \<open>save_results\<close>: the file store is what it
  was, so no result of an earlier group is written. The error of the run is the error
  of the first matching whose computation fails.
\<close>

theorem failure_writes_nothing:
  "(m \<in> set matchings \<and> valuate data currencies m = Inl e \<longrightarrow>
      (\<exists>e'. calculate_valuation data matchings currencies = Inl e'
         \<and> main_valuation data matchings currencies fs = (Inl e', fs)))
   \<and> (matchings = pre @ m # post
        \<and> (\<forall>x \<in> set pre. \<exists>r. valuate data currencies x = Inr r)
        \<and> valuate data currencies m = Inl e \<longrightarrow>
      calculate_valuation data matchings currencies = Inl e
        \<and> main_valuation data matchings currencies fs = (Inl e, fs))"
proof -
  have any: "\<exists>e'. calculate_valuation data matchings currencies = Inl e'
         \<and> main_valuation data matchings currencies fs = (Inl e', fs)"
    if "m \<in> set matchings" and "valuate data currencies m = Inl e"
  proof -
    from that obtain e' where "calculate_valuation data matchings currencies = Inl e'"
      unfolding calculate_valuation_def by (blast dest: valuation_loop_fails)
    then show ?thesis
      by (simp add: main_valuation_def)
  qed
  have first: "calculate_valuation data matchings currencies = Inl e
        \<and> main_valuation data matchings currencies fs = (Inl e, fs)"
    if "matchings = pre @ m # post"
      and "\<forall>x \<in> set pre. \<exists>r. valuate data currencies x = Inr r"
      and "valuate data currencies m = Inl e"
  proof -
    from that have "calculate_valuation data matchings currencies = Inl e"
      unfolding calculate_valuation_def valuation_loop_Inl by blast
    then show ?thesis
      by (simp add: main_valuation_def)
  qed
  from any first show ?thesis
    by blast
qed

lemma fixture_missing_currency:
  "valuate fixture_data Map.empty \<lparr>m_matching_id = 3, m_top_priced_count = 3\<rparr>
     = Inl (KeyError ''EU'')"
  by (simp add: fixture_data_def eval_defs)

lemma fixture_pln_needs_no_table:
  "valuate fixture_data Map.empty \<lparr>m_matching_id = 2, m_top_priced_count = 2\<rparr>
     = Inr \<lparr>r_matching_id = 2, r_total_price = 24500, r_avg_price = 12250, r_currency = ''PLN'',
            r_ignored_products_count = 0\<rparr>"
  by (simp add: fixture_data_def eval_defs)

theorem failure_writes_nothing_witness:
  "valuate fixture_data Map.empty \<lparr>m_matching_id = 2, m_top_priced_count = 2\<rparr>
     = Inr \<lparr>r_matching_id = 2, r_total_price = 24500, r_avg_price = 12250, r_currency = ''PLN'',
            r_ignored_products_count = 0\<rparr>
   \<and> valuate fixture_data Map.empty \<lparr>m_matching_id = 3, m_top_priced_count = 3\<rparr>
     = Inl (KeyError ''EU'')
   \<and> main_valuation fixture_data
       [\<lparr>m_matching_id = 2, m_top_priced_count = 2\<rparr>,
        \<lparr>m_matching_id = 3, m_top_priced_count = 3\<rparr>,
        \<lparr>m_matching_id = 1, m_top_priced_count = 0\<rparr>] Map.empty Map.empty
     = (Inl (KeyError ''EU''), Map.empty)"
  using failure_writes_nothing
    [of "\<lparr>m_matching_id = 3, m_top_priced_count = 3\<rparr>"
        "[\<lparr>m_matching_id = 2, m_top_priced_count = 2\<rparr>,
          \<lparr>m_matching_id = 3, m_top_priced_count = 3\<rparr>,
          \<lparr>m_matching_id = 1, m_top_priced_count = 0\<rparr>]"
        fixture_data Map.empty "KeyError ''EU''" Map.empty
        "[\<lparr>m_matching_id = 2, m_top_priced_count = 2\<rparr>]"
        "[\<lparr>m_matching_id = 1, m_top_priced_count = 0\<rparr>]"]
    fixture_missing_currency fixture_pln_needs_no_table
  by simp

section \<open>The data loader and missing currencies\<close>










section \<open>What the engine leaves unchanged\<close>

lemma keeps_ret: "Q v \<Longrightarrow> keeps n (ret v) Q"
  by (simp add: keeps_def ret_def)

lemma keeps_lift: "(\<And>v. r = Inr v \<Longrightarrow> Q v) \<Longrightarrow> keeps n (lift r) Q"
  by (simp add: keeps_def lift_def split: sum.splits)

lemma keeps_seq:
  assumes "keeps n f Q" and "\<And>v. Q v \<Longrightarrow> keeps n (g v) R"
  shows "keeps n (seq f g) R"
  unfolding keeps_def
proof (intro allI impI)
  fix s :: store
  assume n: "n \<le> length s"
  obtain r s' where f: "f s = (r, s')"
    by (cases "f s")
  with assms(1) n have s': "take n s' = take n s" "length s \<le> length s'"
    and q: "case r of Inl e \<Rightarrow> True | Inr v \<Rightarrow> Q v"
    by (auto simp: keeps_def)
  show "case seq f g s of (r, s'') \<Rightarrow>
          take n s'' = take n s \<and> length s \<le> length s'' \<and> (case r of Inl e \<Rightarrow> True | Inr v \<Rightarrow> R v)"
  proof (cases r)
    case (Inl e)
    with f s' show ?thesis
      by (simp add: seq_def)
  next
    case (Inr v)
    with q have "keeps n (g v) R"
      by (simp add: assms(2))
    moreover from n s' have "n \<le> length s'"
      by simp
    ultimately have "case g v s' of (r, s'') \<Rightarrow>
          take n s'' = take n s' \<and> length s' \<le> length s'' \<and> (case r of Inl e \<Rightarrow> True | Inr v \<Rightarrow> R v)"
      by (simp add: keeps_def)
    with f Inr s' show ?thesis
      by (auto simp: seq_def)
  qed
qed

lemma keeps_new_obj: "keeps n (new_obj ob) (\<lambda>a. n \<le> a)"
  by (simp add: keeps_def new_obj_def)

lemma keeps_get_obj: "keeps n (get_obj a) (\<lambda>_. True)"
  by (simp add: keeps_def get_obj_def)

lemma keeps_put_obj: "n \<le> a \<Longrightarrow> keeps n (put_obj a ob) (\<lambda>_. True)"
  by (simp add: keeps_def put_obj_def)

lemma keeps_get_list: "keeps n (get_list a) (\<lambda>_. True)"
  unfolding get_list_def
  by (rule keeps_seq [OF keeps_get_obj]) (simp add: keeps_ret keeps_lift split: obj.splits)

lemma keeps_get_product: "keeps n (get_product a) (\<lambda>_. True)"
  unfolding get_product_def
  by (rule keeps_seq [OF keeps_get_obj]) (simp add: keeps_ret keeps_lift split: obj.splits)

lemma keeps_get_matching: "keeps n (get_matching a) (\<lambda>_. True)"
  unfolding get_matching_def
  by (rule keeps_seq [OF keeps_get_obj]) (simp add: keeps_ret keeps_lift split: obj.splits)

lemma keeps_get_currencies: "keeps n (get_currencies a) (\<lambda>_. True)"
  unfolding get_currencies_def
  by (rule keeps_seq [OF keeps_get_obj]) (simp add: keeps_ret keeps_lift split: obj.splits)

lemma keeps_get_products: "keeps n (get_products refs) (\<lambda>_. True)"
proof (induction refs)
  case Nil
  show ?case by (simp add: keeps_ret)
next
  case (Cons a refs)
  show ?case
    unfolding get_products.simps
    by (rule keeps_seq [OF keeps_get_product], rule keeps_seq [OF Cons.IH], simp add: keeps_ret)
qed

lemma keeps_list_sort: "n \<le> xs \<Longrightarrow> keeps n (list_sort xs) (\<lambda>_. True)"
  unfolding list_sort_def
  by (rule keeps_seq [OF keeps_get_list], rule keeps_seq [OF keeps_get_products],
      rule keeps_put_obj)

lemma keeps_list_slice: "keeps n (list_slice xs k) (\<lambda>a. n \<le> a)"
  unfolding list_slice_def
  by (rule keeps_seq [OF keeps_get_list], rule keeps_new_obj)

lemma keeps_list_append: "n \<le> xs \<Longrightarrow> keeps n (list_append xs x) (\<lambda>_. True)"
  unfolding list_append_def
  by (rule keeps_seq [OF keeps_get_list], rule keeps_put_obj)

lemma keeps_convert_store:
  "keeps n (convert_store currencies currency total_price avg_price) (\<lambda>_. True)"
proof (cases "currency = ''PLN''")
  case True
  then show ?thesis
    by (simp add: convert_store_def keeps_ret)
next
  case False
  have "keeps n (seq (get_currencies currencies) (\<lambda>table.
           seq (lift (lookup_currency table currency)) (\<lambda>ratio.
             ret (total_price * ratio, avg_price * ratio, ''PLN'')))) (\<lambda>_. True)"
    by (rule keeps_seq [OF keeps_get_currencies], rule keeps_seq [OF keeps_lift [of _ "\<lambda>_. True"]],
        simp_all add: keeps_ret)
  with False show ?thesis
    by (simp add: convert_store_def)
qed

lemma keeps_valuate_store:
  assumes "n \<le> valuation_results"
  shows "keeps n (valuate_store data currencies valuation_results matching) (\<lambda>_. True)"
  unfolding valuate_store_def Let_def
  apply (rule keeps_seq [OF keeps_get_matching])
  apply (rule keeps_seq [OF keeps_get_list])
  apply (rule keeps_seq [OF keeps_get_products])
  apply (rule keeps_seq [OF keeps_new_obj])
  apply (rule keeps_seq [OF keeps_list_sort], assumption)
  apply (rule keeps_seq [OF keeps_list_slice])
  apply (rule keeps_seq [OF keeps_get_list])
  apply (rule keeps_seq [OF keeps_get_list])
  apply (rule keeps_seq [OF keeps_get_products])
  apply (rule keeps_seq [OF keeps_lift [of _ "\<lambda>_. True"]], simp)
  apply (rule keeps_seq [OF keeps_lift [of _ "\<lambda>_. True"]], simp)
  apply (rule keeps_seq [OF keeps_get_product])
  apply (rule keeps_seq [OF keeps_convert_store])
  apply (simp only: split_def)
  apply (rule keeps_seq [OF keeps_new_obj])
  apply (rule keeps_list_append [OF assms])
  done

lemma keeps_valuation_loop_store:
  assumes "n \<le> valuation_results"
  shows "keeps n (valuation_loop_store data currencies valuation_results refs) (\<lambda>_. True)"
proof (induction refs)
  case Nil
  show ?case by (simp add: keeps_ret)
next
  case (Cons matching rest)
  show ?case
    unfolding valuation_loop_store.simps
    by (rule keeps_seq [OF keeps_valuate_store [OF assms]], rule Cons.IH)
qed

lemma keeps_calculate_valuation_store:
  "keeps n (calculate_valuation_store data matchings currencies) (\<lambda>a. n \<le> a)"
  unfolding calculate_valuation_store_def
  by (rule keeps_seq [OF keeps_new_obj], rule keeps_seq [OF keeps_get_list],
      rule keeps_seq [OF keeps_valuation_loop_store], assumption, simp add: keeps_ret)

lemmas store_defs = calculate_valuation_store_def valuate_store_def list_sort_def list_slice_def
  list_append_def convert_store_def get_list_def get_product_def get_matching_def
  get_currencies_def get_obj_def put_obj_def new_obj_def seq_def ret_def lift_def

lemma small_store_run:
  "calculate_valuation_store 2 4 5 small_store =
     (Inr 6,
      small_store @
        [ListObj [9], ListObj [1, 0], ListObj [1],
         ResultDict \<lparr>r_matching_id = 1, r_total_price = 120, r_avg_price = 120,
           r_currency = ''PLN'', r_ignored_products_count = 1\<rparr>])"
  by (simp add: small_store_def store_defs eval_defs)

lemma small_store_failing_run:
  "calculate_valuation_store 2 4 5 (small_store[3 := MatchingDict \<lparr>m_matching_id = 1, m_top_priced_count = 0\<rparr>]) =
     (Inl ZeroDivisionError,
      small_store[3 := MatchingDict \<lparr>m_matching_id = 1, m_top_priced_count = 0\<rparr>] @
        [ListObj [], ListObj [1, 0], ListObj []])"
  by (simp add: small_store_def store_defs eval_defs)

text \<open>
  Claim C9. \<open>calculate_valuation\<close> changes no object that existed when it was called:
  whatever the store and the three references, and whether the call returns or
  raises, the store it leaves begins with the store it was given. So the product
  list and its dictionaries, the matching list and its dictionaries and the currency
  table are as they were; the call only adds objects.
\<close>

theorem calculate_valuation_keeps_inputs:
  "take (length s) (snd (calculate_valuation_store data matchings currencies s)) = s
   \<and> length s \<le> length (snd (calculate_valuation_store data matchings currencies s))
   \<and> (\<forall>a < length s. snd (calculate_valuation_store data matchings currencies s) ! a = s ! a)"
proof -
  obtain r s' where run: "calculate_valuation_store data matchings currencies s = (r, s')"
    by (cases "calculate_valuation_store data matchings currencies s")
  from keeps_calculate_valuation_store [of "length s" data matchings currencies] run
  have same: "take (length s) s' = s" and grows: "length s \<le> length s'"
    by (auto simp: keeps_def)
  have "s' ! a = s ! a" if "a < length s" for a
  proof -
    from that have "take (length s) s' ! a = s' ! a"
      by simp
    with same show ?thesis
      by simp
  qed
  with run same grows show ?thesis
    by simp
qed

theorem calculate_valuation_keeps_inputs_witness:
  "calculate_valuation_store 2 4 5 small_store =
     (Inr 6,
      small_store @
        [ListObj [9], ListObj [1, 0], ListObj [1],
         ResultDict \<lparr>r_matching_id = 1, r_total_price = 120, r_avg_price = 120,
           r_currency = ''PLN'', r_ignored_products_count = 1\<rparr>])
   \<and> take (length small_store) (snd (calculate_valuation_store 2 4 5 small_store)) = small_store
   \<and> snd (calculate_valuation_store 2 4 5 small_store) ! 2 = ListObj [0, 1]
   \<and> length small_store = 6"
proof -
  have len: "length small_store = 6" and data: "small_store ! 2 = ListObj [0, 1]"
    by (simp_all add: small_store_def)
  from calculate_valuation_keeps_inputs [of small_store 2 4 5] len data
  have "take (length small_store) (snd (calculate_valuation_store 2 4 5 small_store)) = small_store"
    and "snd (calculate_valuation_store 2 4 5 small_store) ! 2 = ListObj [0, 1]"
    by simp_all
  with small_store_run len show ?thesis
    by simp
qed

section \<open>The engine on the store computes what the engine on values computes\<close>

text \<open>
  When the store holds the product list, the matching list and the currency table
  behind the three references, the run on the store raises the exception, or returns
  the results, of \<open>calculate_valuation\<close> on the values held.
\<close>

lemma get_list_at: "a < length s \<Longrightarrow> s ! a = ListObj refs \<Longrightarrow> get_list a s = (Inr refs, s)"
  by (simp add: get_list_def get_obj_def seq_def ret_def)

lemma get_product_at: "a < length s \<Longrightarrow> s ! a = ProductDict p \<Longrightarrow> get_product a s = (Inr p, s)"
  by (simp add: get_product_def get_obj_def seq_def ret_def)

lemma get_matching_at: "a < length s \<Longrightarrow> s ! a = MatchingDict m \<Longrightarrow> get_matching a s = (Inr m, s)"
  by (simp add: get_matching_def get_obj_def seq_def ret_def)

lemma get_currencies_at:
  "a < length s \<Longrightarrow> s ! a = CurrencyDict t \<Longrightarrow> get_currencies a s = (Inr t, s)"
  by (simp add: get_currencies_def get_obj_def seq_def ret_def)

lemma get_products_holds:
  "holds ProductDict s refs ps \<Longrightarrow> get_products refs s = (Inr ps, s)"
  unfolding holds_def
  by (induction rule: list_all2_induct) (simp_all add: ret_def seq_def get_product_at)

lemma holds_pairs:
  assumes "holds C s refs xs" and "set pairs \<subseteq> set (zip refs xs)"
  shows "holds C s (map fst pairs) (map snd pairs)"
proof -
  from assms(1) have "\<forall>(a, x) \<in> set (zip refs xs). a < length s \<and> s ! a = C x"
    by (simp add: holds_def list_all2_iff)
  with assms(2) have "\<forall>pr \<in> set pairs. fst pr < length s \<and> s ! fst pr = C (snd pr)"
    by fastforce
  then show ?thesis
    by (simp add: holds_def list_all2_map1 list_all2_map2 list_all2_same)
qed

lemma prefix_length: "take (length s0) s = s0 \<Longrightarrow> length s0 \<le> length s"
  by (metis length_take min.cobounded1 min.commute)

lemma holds_prefix:
  assumes "holds C s0 refs xs" and "take (length s0) s = s0"
  shows "holds C s refs xs"
proof -
  have "a < length s \<and> s ! a = s0 ! a" if "a < length s0" for a
  proof -
    from assms(2) have "length s0 \<le> length s"
      by (rule prefix_length)
    moreover from that have "take (length s0) s ! a = s ! a"
      by simp
    ultimately show ?thesis
      using that assms(2) by simp
  qed
  with assms(1) show ?thesis
    unfolding holds_def by (auto elim!: list_all2_mono)
qed

lemma map_insort_key: "map f (insort_key (\<lambda>x. k (f x)) x xs) = insort_key k (f x) (map f xs)"
  by (induction xs) simp_all

lemma map_sort_key: "map f (sort_key (\<lambda>x. k (f x)) xs) = sort_key k (map f xs)"
  by (induction xs) (simp_all add: map_insort_key)

lemma map_sort_reverse: "map f (sort_reverse (\<lambda>x. k (f x)) xs) = sort_reverse k (map f xs)"
  by (simp add: sort_reverse_def map_sort_key flip: rev_map)

lemma set_sort_reverse: "set (sort_reverse k xs) = set xs"
  by (simp add: sort_reverse_def)

lemma set_slice_to: "set (slice_to xs n) \<subseteq> set xs"
  by (auto simp: slice_to_def dest: in_set_takeD)

lemma slice_to_map: "slice_to (map f xs) n = map f (slice_to xs n)"
  by (simp add: slice_to_def take_map)

lemma convert_store_at:
  assumes "currencies < length s" "s ! currencies = CurrencyDict table"
  shows "convert_store currencies c t a s = (convert table c t a, s)"
  using assms
  by (simp add: convert_store_def convert_def get_currencies_at seq_def lift_def ret_def
        bind_err_def split: sum.splits)

lemma valuate_store_step:
  assumes data: "data < length s" "s ! data = ListObj refs"
    and products: "holds ProductDict s refs ps"
    and matching: "matching < length s" "s ! matching = MatchingDict m"
    and currencies: "currencies < length s" "s ! currencies = CurrencyDict table"
    and results: "vr < length s" "s ! vr = ListObj racc"
  shows "\<exists>l1 l2. valuate_store data currencies vr matching s =
           (case valuate ps table m of
              Inl e \<Rightarrow> (Inl e, s @ [ListObj l1, ListObj l2])
            | Inr res \<Rightarrow>
                (Inr (), (s @ [ListObj l1, ListObj l2, ResultDict res])
                           [vr := ListObj (racc @ [length s + 2])]))"
proof -
  define n where "n = m_top_priced_count m"
  define fpairs where
    "fpairs = filter (\<lambda>(ref, product). p_matching_id product = m_matching_id m) (zip refs ps)"
  define spairs where "spairs = sort_reverse (\<lambda>(ref, product). extended_price product) fpairs"
  define tpairs where "tpairs = slice_to spairs n"
  define s1 where "s1 = s @ [ListObj (map fst fpairs)]"
  define s2 where "s2 = s @ [ListObj (map fst spairs)]"
  define s3 where "s3 = s @ [ListObj (map fst spairs), ListObj (map fst tpairs)]"
  from products have len: "length refs = length ps"
    by (simp add: holds_def list_all2_lengthD)
  have sub: "set fpairs \<subseteq> set (zip refs ps)" "set spairs \<subseteq> set (zip refs ps)"
    "set tpairs \<subseteq> set (zip refs ps)"
    using set_slice_to [of spairs n]
    by (auto simp: fpairs_def spairs_def tpairs_def set_sort_reverse)
  have ext: "take (length s) s1 = s" "take (length s) s2 = s" "take (length s) s3 = s"
    by (simp_all add: s1_def s2_def s3_def)
  have snd_f: "map snd fpairs = filter (\<lambda>product. p_matching_id product = m_matching_id m) ps"
  proof -
    have "map snd fpairs
        = filter (\<lambda>product. p_matching_id product = m_matching_id m) (map snd (zip refs ps))"
      by (simp add: fpairs_def filter_map comp_def split_def)
    with len show ?thesis
      by simp
  qed
  have snd_s: "map snd spairs = sorted_products ps (m_matching_id m)"
  proof -
    have "map snd (sort_reverse (\<lambda>x. extended_price (snd x)) fpairs)
        = sort_reverse extended_price (map snd fpairs)"
      by (rule map_sort_reverse)
    with snd_f show ?thesis
      by (simp add: spairs_def sorted_products_def group_products_def split_def)
  qed
  have snd_t: "map snd tpairs = top_set ps m"
    using snd_s by (simp add: tpairs_def top_set_def n_def flip: slice_to_map)
  have step_get: "get_matching matching s = (Inr m, s)" "get_list data s = (Inr refs, s)"
    "get_products refs s = (Inr ps, s)"
    using data products matching by (simp_all add: get_matching_at get_list_at get_products_holds)
  have step_new: "new_obj (ListObj (map fst fpairs)) s = (Inr (length s), s1)"
    by (simp add: new_obj_def s1_def)
  have step_sort: "list_sort (length s) s1 = (Inr (), s2)"
  proof -
    have "get_list (length s) s1 = (Inr (map fst fpairs), s1)"
      by (simp add: s1_def get_list_at)
    moreover have "holds ProductDict s1 (map fst fpairs) (map snd fpairs)"
      using holds_pairs [OF products sub(1)] ext(1) by (rule holds_prefix)
    then have "get_products (map fst fpairs) s1 = (Inr (map snd fpairs), s1)"
      by (rule get_products_holds)
    ultimately show ?thesis
      by (simp add: list_sort_def seq_def put_obj_def zip_map_fst_snd spairs_def s1_def s2_def)
  qed
  have step_slice: "list_slice (length s) n s2 = (Inr (Suc (length s)), s3)"
    by (simp add: list_slice_def seq_def get_list_at s2_def s3_def new_obj_def tpairs_def
          slice_to_map)
  have step_len: "get_list (length s) s3 = (Inr (map fst spairs), s3)"
    by (simp add: s3_def get_list_at)
  have step_top: "get_list (Suc (length s)) s3 = (Inr (map fst tpairs), s3)"
    by (simp add: s3_def get_list_at nth_append)
  have top_holds: "holds ProductDict s3 (map fst tpairs) (map snd tpairs)"
    using holds_pairs [OF products sub(3)] ext(3) by (rule holds_prefix)
  then have step_dicts: "get_products (map fst tpairs) s3 = (Inr (top_set ps m), s3)"
    using snd_t by (simp add: get_products_holds)
  have step_first: "get_product (fst (hd tpairs)) s3 = (Inr (hd (top_set ps m)), s3)"
    if "tpairs \<noteq> []"
  proof -
    from that top_holds have "fst (hd tpairs) < length s3 \<and> s3 ! fst (hd tpairs) = ProductDict (snd (hd tpairs))"
      by (cases tpairs) (simp_all add: holds_def)
    moreover from that have "snd (hd tpairs) = hd (map snd tpairs)"
      by (simp add: hd_map)
    with snd_t have "snd (hd tpairs) = hd (top_set ps m)"
      by simp
    ultimately show ?thesis
      by (simp add: get_product_at)
  qed
  have step_convert: "convert_store currencies c t a s3 = (convert table c t a, s3)" for c t a
    using currencies by (intro convert_store_at) (simp_all add: s3_def nth_append)
  have step_append: "list_append vr x (s3 @ [ob]) = (Inr (), (s3 @ [ob])[vr := ListObj (racc @ [x])])"
    for x ob
  proof -
    from results have "get_list vr (s3 @ [ob]) = (Inr racc, s3 @ [ob])"
      by (intro get_list_at) (simp_all add: s3_def nth_append)
    moreover from results have "vr < length (s3 @ [ob])"
      by (simp add: s3_def)
    ultimately show ?thesis
      by (simp add: list_append_def seq_def put_obj_def)
  qed
  have len_s: "length spairs = length (group_products ps (m_matching_id m))"
    using arg_cong [OF snd_s, of length]
    by (simp add: sorted_products_def sort_reverse_length)
  have empty: "tpairs = [] \<longleftrightarrow> top_set ps m = []"
    using snd_t by (metis map_is_Nil_conv)
  have "valuate_store data currencies vr matching s =
           (case valuate ps table m of
              Inl e \<Rightarrow> (Inl e, s3)
            | Inr res \<Rightarrow>
                (Inr (), (s3 @ [ResultDict res])[vr := ListObj (racc @ [length s + 2])]))"
  proof (cases "n = 0")
    case True
    then have zero: "m_top_priced_count m = 0"
      by (simp add: n_def)
    from True step_slice have slice0: "list_slice (length s) 0 s2 = (Inr (Suc (length s)), s3)"
      by simp
    show ?thesis
      unfolding valuate_store_def Let_def
      by (simp add: seq_def step_get step_new fpairs_def [symmetric] step_sort
            zero slice0 step_len step_top step_dicts lift_def py_div_def
            valuate_cases)
  next
    case nz: False
    show ?thesis
    proof (cases "tpairs = []")
      case True
      then have item: "first_item (map fst tpairs) = Inl IndexError"
        by (simp add: first_item_def)
      from True empty have top: "top_set ps m = []"
        by simp
      from nz show ?thesis
        unfolding valuate_store_def Let_def
        by (simp add: seq_def step_get step_new fpairs_def [symmetric] step_sort
              n_def [symmetric] step_slice step_len step_top step_dicts lift_def py_div_def
              item valuate_cases top)
    next
      case False
      then have item: "first_item (map fst tpairs) = Inr (fst (hd tpairs))"
        by (cases tpairs) (simp_all add: first_item_def)
      from False empty have top: "top_set ps m \<noteq> []"
        by simp
      note first = step_first [OF False]
      have new_res: "new_obj (ResultDict res) s3 = (Inr (Suc (Suc (length s))), s3 @ [ResultDict res])" for res
        by (simp add: new_obj_def s3_def)
      from nz show ?thesis
        unfolding valuate_store_def Let_def
        by (simp add: seq_def step_get step_new fpairs_def [symmetric] step_sort
              n_def [symmetric] step_slice step_len step_top step_dicts lift_def py_div_def
              item first step_convert new_res step_append len_s
              valuate_cases top convert_def lookup_currency_def bind_err_def
              top_total_def
            split: option.splits)
    qed
  qed
  then have "valuate_store data currencies vr matching s =
           (case valuate ps table m of
              Inl e \<Rightarrow> (Inl e, s @ [ListObj (map fst spairs), ListObj (map fst tpairs)])
            | Inr res \<Rightarrow>
                (Inr (), (s @ [ListObj (map fst spairs), ListObj (map fst tpairs), ResultDict res])
                           [vr := ListObj (racc @ [length s + 2])]))"
    by (simp add: s3_def split: sum.splits)
  then show ?thesis
    by blast
qed

lemma prefix_nth:
  assumes "take (length s0) s = s0" and "a < length s0"
  shows "a < length s \<and> s ! a = s0 ! a"
proof -
  from assms(1) have "length s0 \<le> length s"
    by (rule prefix_length)
  moreover from assms(2) have "take (length s0) s ! a = s ! a"
    by simp
  ultimately show ?thesis
    using assms by simp
qed

lemma valuation_loop_store_refines:
  assumes matchings: "holds MatchingDict s0 mrefs ms"
    and data: "data < length s0" "s0 ! data = ListObj refs"
    and products: "holds ProductDict s0 refs ps"
    and currencies: "currencies < length s0" "s0 ! currencies = CurrencyDict table"
    and prefix: "take (length s0) s = s0"
    and vr: "length s0 \<le> vr" "vr < length s" "s ! vr = ListObj racc"
    and acc: "holds ResultDict s racc acc"
  shows "\<exists>s'. take (length s0) s' = s0 \<and>
     (case valuation_loop ps table ms acc of
        Inl e \<Rightarrow> valuation_loop_store data currencies vr mrefs s = (Inl e, s')
      | Inr results \<Rightarrow>
          valuation_loop_store data currencies vr mrefs s = (Inr (), s')
          \<and> vr < length s'
          \<and> (\<exists>rrefs. s' ! vr = ListObj rrefs \<and> holds ResultDict s' rrefs results))"
  using matchings prefix vr acc unfolding holds_def [of MatchingDict]
proof (induction mrefs ms arbitrary: s racc acc rule: list_all2_induct)
  case Nil
  then show ?case
    by (auto simp: ret_def)
next
  case (Cons mref mrefs m ms)
  note prefix = \<open>take (length s0) s = s0\<close>
  from Cons.hyps(1) have m0: "mref < length s0" "s0 ! mref = MatchingDict m"
    by simp_all
  from prefix_nth [OF prefix m0(1)] m0(2) have m_at: "mref < length s" "s ! mref = MatchingDict m"
    by simp_all
  from prefix_nth [OF prefix data(1)] data(2) have d_at: "data < length s" "s ! data = ListObj refs"
    by simp_all
  from prefix_nth [OF prefix currencies(1)] currencies(2)
  have c_at: "currencies < length s" "s ! currencies = CurrencyDict table"
    by simp_all
  from products prefix have p_at: "holds ProductDict s refs ps"
    by (rule holds_prefix)
  from valuate_store_step [OF d_at p_at m_at c_at Cons.prems(3,4)]
  obtain l1 l2 where step: "valuate_store data currencies vr mref s =
           (case valuate ps table m of
              Inl e \<Rightarrow> (Inl e, s @ [ListObj l1, ListObj l2])
            | Inr res \<Rightarrow>
                (Inr (), (s @ [ListObj l1, ListObj l2, ResultDict res])
                           [vr := ListObj (racc @ [length s + 2])]))"
    by blast
  show ?case
  proof (cases "valuate ps table m")
    case (Inl e)
    with step have "valuation_loop_store data currencies vr (mref # mrefs) s
        = (Inl e, s @ [ListObj l1, ListObj l2])"
      by (simp add: seq_def)
    moreover from prefix_length [OF prefix] prefix
    have "take (length s0) (s @ [ListObj l1, ListObj l2]) = s0"
      by simp
    ultimately show ?thesis
      using Inl by auto
  next
    case (Inr res)
    define s' where "s' = (s @ [ListObj l1, ListObj l2, ResultDict res])
                           [vr := ListObj (racc @ [length s + 2])]"
    from Inr step have run: "valuate_store data currencies vr mref s = (Inr (), s')"
      by (simp add: s'_def)
    from prefix have len: "length s0 \<le> length s"
      by (rule prefix_length)
    with prefix Cons.prems(2) have pre': "take (length s0) s' = s0"
      by (simp add: s'_def)
    from Cons.prems(3) have vr': "vr < length s'" "s' ! vr = ListObj (racc @ [length s + 2])"
      by (simp_all add: s'_def)
    have old: "r < length s' \<and> s' ! r = ResultDict x" if "r < length s \<and> s ! r = ResultDict x" for r x
    proof -
      from that Cons.prems(4) have "r \<noteq> vr"
        by auto
      with that show ?thesis
        by (simp add: s'_def nth_append)
    qed
    from Cons.prems(3) have new: "length s + 2 < length s' \<and> s' ! (length s + 2) = ResultDict res"
      by (simp add: s'_def nth_append)
    from Cons.prems(5) old have "holds ResultDict s' racc acc"
      unfolding holds_def by (auto elim!: list_all2_mono)
    with new have acc': "holds ResultDict s' (racc @ [length s + 2]) (acc @ [res])"
      unfolding holds_def by (simp add: list_all2_appendI)
    from Cons.IH [OF pre' Cons.prems(2) vr' acc']
    obtain s'' where "take (length s0) s'' = s0"
      and "case valuation_loop ps table ms (acc @ [res]) of
        Inl e \<Rightarrow> valuation_loop_store data currencies vr mrefs s' = (Inl e, s'')
      | Inr results \<Rightarrow>
          valuation_loop_store data currencies vr mrefs s' = (Inr (), s'')
          \<and> vr < length s''
          \<and> (\<exists>rrefs. s'' ! vr = ListObj rrefs \<and> holds ResultDict s'' rrefs results)"
      by blast
    with Inr run show ?thesis
      by (auto simp: seq_def split: sum.splits)
  qed
qed

lemma calculate_valuation_store_refines:
  assumes data: "data < length s" "s ! data = ListObj refs"
    and products: "holds ProductDict s refs ps"
    and matchings: "matchings < length s" "s ! matchings = ListObj mrefs"
      "holds MatchingDict s mrefs ms"
    and currencies: "currencies < length s" "s ! currencies = CurrencyDict table"
  shows "\<exists>s'. take (length s) s' = s \<and>
     (case calculate_valuation ps ms table of
        Inl e \<Rightarrow> calculate_valuation_store data matchings currencies s = (Inl e, s')
      | Inr results \<Rightarrow>
          calculate_valuation_store data matchings currencies s = (Inr (length s), s')
          \<and> length s < length s'
          \<and> (\<exists>rrefs. s' ! length s = ListObj rrefs \<and> holds ResultDict s' rrefs results))"
proof -
  define s1 where "s1 = s @ [ListObj []]"
  have pre: "take (length s) s1 = s" and vr: "length s \<le> length s" "length s < length s1"
    "s1 ! length s = ListObj []" and acc: "holds ResultDict s1 [] []"
    by (simp_all add: s1_def holds_def)
  from matchings(1,2) have list: "get_list matchings s1 = (Inr mrefs, s1)"
    by (intro get_list_at) (simp_all add: s1_def nth_append)
  from valuation_loop_store_refines [OF matchings(3) data products currencies pre vr acc]
  obtain s' where "take (length s) s' = s"
    and "case valuation_loop ps table ms [] of
        Inl e \<Rightarrow> valuation_loop_store data currencies (length s) mrefs s1 = (Inl e, s')
      | Inr results \<Rightarrow>
          valuation_loop_store data currencies (length s) mrefs s1 = (Inr (), s')
          \<and> length s < length s'
          \<and> (\<exists>rrefs. s' ! length s = ListObj rrefs \<and> holds ResultDict s' rrefs results)"
    by blast
  with list show ?thesis
    by (auto simp: calculate_valuation_store_def calculate_valuation_def seq_def new_obj_def
          ret_def s1_def [symmetric] split: sum.splits)
qed

end
